theory Spec2Isabelle
  imports Complex_Main
begin

section \<open>Event routing (pg\_event\_bus/routing.py)\<close>

text \<open>
  A \<^verbatim>\<open>DBEvent\<close> is a dict built by its constructor with exactly the keys
  \<^verbatim>\<open>type\<close> and \<^verbatim>\<open>payload\<close>; the two properties of the class read them.
  The payload is opaque to the router, so its type is a parameter.
\<close>

record 'p DBEvent =
  event_type :: string
  event_payload :: 'p

text \<open>
  An \<^verbatim>\<open>EventRouter\<close> has a prefix and the list of registered
  \<^verbatim>\<open>(path, endpoint)\<close> pairs, in registration order. Endpoints are Python
  callables; the model holds a reference \<open>'e\<close> to each of them (so that "the same
  endpoint" is equality of references) and runs them through an interpretation
  \<open>call\<close>, see \<open>handle\<close>.
\<close>

record 'e EventRouter =
  prefix :: string
  event_handlers :: "(string \<times> 'e) list"

definition EventRouter_init :: "string \<Rightarrow> 'e EventRouter" where
  "EventRouter_init p = \<lparr>prefix = p, event_handlers = []\<rparr>"

definition add_event_route :: "'e EventRouter \<Rightarrow> string \<Rightarrow> 'e \<Rightarrow> 'e EventRouter" where
  "add_event_route self path endpoint =
     self\<lparr>event_handlers := event_handlers self @ [(path, endpoint)]\<rparr>"


text \<open>Python's \<^verbatim>\<open>sep.join(parts)\<close>.\<close>

fun join :: "string \<Rightarrow> string list \<Rightarrow> string" where
  "join sep [] = []"
| "join sep [x] = x"
| "join sep (x # y # ys) = x @ sep @ join sep (y # ys)"

text \<open>
  The body of the loop of \<^verbatim>\<open>include_router\<close>: the parts are collected by three
  truth tests on strings (a string is true when it is not empty) and joined with a dot.
\<close>

definition new_path :: "string \<Rightarrow> string \<Rightarrow> string \<Rightarrow> string" where
  "new_path extra router_prefix path =
     (let parts = [];
          parts = (if extra \<noteq> [] then parts @ [extra] else parts);
          parts = (if router_prefix \<noteq> [] then parts @ [router_prefix] else parts);
          parts = (if path \<noteq> [] then parts @ [path] else parts)
      in join ''.'' parts)"

text \<open>
  \<^verbatim>\<open>include_router(self, router, prefix)\<close> mutates \<open>self\<close> while it reads
  \<open>router\<close>, and both may be the same object, so routers live in a store and are
  passed by reference. The \<^verbatim>\<open>for\<close> loop walks the list of \<open>router\<close> by
  position, as Python's list iterator does: at each step it looks at the list as it is
  then, so routes appended during the loop are visited too. When \<open>router\<close> is
  \<open>self\<close> and has a route, every step appends one more route and the loop never
  ends: the result \<open>None\<close> is the call that does not return.
\<close>

type_synonym 'e store = "nat \<Rightarrow> 'e EventRouter"

partial_function (option) include_loop ::
  "'e store \<Rightarrow> nat \<Rightarrow> nat \<Rightarrow> string \<Rightarrow> nat \<Rightarrow> 'e store option" where
  "include_loop st self router extra i =
     (if i < length (event_handlers (st router))
      then (case event_handlers (st router) ! i of
              (path, endpoint) \<Rightarrow>
                include_loop
                  (st(self := add_event_route (st self)
                                (new_path extra (prefix (st router)) path) endpoint))
                  self router extra (Suc i))
      else Some st)"

definition include_router :: "'e store \<Rightarrow> nat \<Rightarrow> nat \<Rightarrow> string \<Rightarrow> 'e store option" where
  "include_router st self router extra = include_loop st self router extra 0"

text \<open>
  \<^verbatim>\<open>handle(self, session, event)\<close>. An endpoint is awaited with the session and the
  event; it may change the session (and the database behind it) or raise, and what it
  returns is dropped. \<open>call endpoint session event\<close> is \<open>Inl x\<close> when the endpoint
  raises \<open>x\<close> and \<open>Inr session'\<close> when it returns. An exception of the endpoint leaves
  \<open>handle\<close> as it is: there is no handler around the call.

  The result has two parts: the endpoints that were invoked, in order, and the outcome,
  \<open>Inl x\<close> for the exception \<open>x\<close> or \<open>Inr (b, session')\<close> for the returned
  boolean.
\<close>

fun handle_loop ::
  "('e \<Rightarrow> 's \<Rightarrow> 'p DBEvent \<Rightarrow> 'x + 's) \<Rightarrow> (string \<times> 'e) list \<Rightarrow> 's \<Rightarrow> 'p DBEvent
     \<Rightarrow> 'e list \<times> ('x + bool \<times> 's)" where
  "handle_loop call [] session event = ([], Inr (False, session))"
| "handle_loop call ((path, endpoint) # rest) session event =
     (if path = event_type event
      then ([endpoint],
            (case call endpoint session event of
               Inl x \<Rightarrow> Inl x
             | Inr session' \<Rightarrow> Inr (True, session')))
      else handle_loop call rest session event)"

definition handle ::
  "('e \<Rightarrow> 's \<Rightarrow> 'p DBEvent \<Rightarrow> 'x + 's) \<Rightarrow> 'e EventRouter \<Rightarrow> 's \<Rightarrow> 'p DBEvent
     \<Rightarrow> 'e list \<times> ('x + bool \<times> 's)" where
  "handle call self session event = handle_loop call (event_handlers self) session event"

section \<open>Publishing an event (pg\_event\_bus/base.py)\<close>

text \<open>
  The row class \<^verbatim>\<open>Event\<close> is declared in \<^verbatim>\<open>models.py\<close>, a module
  that is not modelled here; \<open>publish_event\<close> sets four of its columns and reads \<^verbatim>\<open>id\<close>, so
  the record has these five. The types of the identifier, the payload, the source tag and
  the timestamp are parameters. The identifier is \<open>None\<close> until the row has been
  inserted.
\<close>

record ('i, 'p, 'src, 't) Event =
  id' :: "'i option"
  type :: string
  payload :: 'p
  source :: 'src
  run_at :: "'t option"

text \<open>
  The session is SQLAlchemy's \<^verbatim>\<open>AsyncSession\<close> on a PostgreSQL connection (the
  configuration builds \<^verbatim>\<open>postgresql+asyncpg\<close> URLs). Its model keeps what
  \<open>publish_event\<close> can observe: the objects added to the session (an object is known
  by its position, which stands for the Python reference), the statements the database
  has run for it, in order, and the number of rows the table's identifier sequence has
  served.
\<close>

datatype ('i, 'p, 'src, 't) statement =
    INSERT "('i, 'p, 'src, 't) Event"
  | TextClause string "(string \<times> string) list"

record ('i, 'p, 'src, 't) AsyncSession =
  objects :: "('i, 'p, 'src, 't) Event list"
  emitted :: "('i, 'p, 'src, 't) statement list"
  inserted :: nat

datatype db_error = ProgrammingError string

text \<open>\<^verbatim>\<open>session.add(event)\<close>: the object joins the session; nothing is sent yet.\<close>

definition session_add ::
  "('i, 'p, 'src, 't) AsyncSession \<Rightarrow> ('i, 'p, 'src, 't) Event
     \<Rightarrow> nat \<times> ('i, 'p, 'src, 't) AsyncSession" where
  "session_add session event =
     (length (objects session), session\<lparr>objects := objects session @ [event]\<rparr>)"

text \<open>
  \<^verbatim>\<open>session.flush()\<close>: every object without an identifier is inserted, in the order
  of \<^verbatim>\<open>add\<close>, and the identifier the database gives it is written back into the
  object. \<open>gen n\<close> is the identifier the database gives to the row after \<open>n\<close>
  earlier ones.
\<close>

fun flush_objects ::
  "(nat \<Rightarrow> 'i) \<Rightarrow> nat \<Rightarrow> ('i, 'p, 'src, 't) Event list
     \<Rightarrow> ('i, 'p, 'src, 't) Event list \<times> ('i, 'p, 'src, 't) statement list \<times> nat" where
  "flush_objects gen n [] = ([], [], n)"
| "flush_objects gen n (e # es) =
     (case id' e of
        Some i \<Rightarrow>
          (case flush_objects gen n es of (es', stmts, n') \<Rightarrow> (e # es', stmts, n'))
      | None \<Rightarrow>
          (let e' = e\<lparr>id' := Some (gen n)\<rparr> in
           case flush_objects gen (Suc n) es of
             (es', stmts, n') \<Rightarrow> (e' # es', INSERT e' # stmts, n')))"

definition session_flush ::
  "(nat \<Rightarrow> 'i) \<Rightarrow> ('i, 'p, 'src, 't) AsyncSession \<Rightarrow> ('i, 'p, 'src, 't) AsyncSession" where
  "session_flush gen session =
     (case flush_objects gen (inserted session) (objects session) of
        (objects', stmts, n') \<Rightarrow>
          session\<lparr>objects := objects', emitted := emitted session @ stmts, inserted := n'\<rparr>)"

text \<open>
  \<^verbatim>\<open>session.execute(text(sql), params)\<close>. A name \<^verbatim>\<open>:name\<close> in the text that
  has a value in \<open>params\<close> is sent to the server as a numbered parameter
  (\<^verbatim>\<open>$1\<close>). PostgreSQL takes parameters only in statements it plans; the payload of
  \<^verbatim>\<open>NOTIFY channel, payload\<close> has to be a string literal, and a parameter in its
  place is a syntax error, which the session raises as \<^verbatim>\<open>ProgrammingError\<close>.
  \<open>contains pat s\<close>: the text \<open>pat\<close> occurs in \<open>s\<close>.
\<close>

fun contains :: "string \<Rightarrow> string \<Rightarrow> bool" where
  "contains pat [] = (pat = [])"
| "contains pat (c # cs) = (take (length pat) (c # cs) = pat \<or> contains pat cs)"

definition bound_parameters :: "string \<Rightarrow> (string \<times> string) list \<Rightarrow> string list" where
  "bound_parameters sql params = filter (\<lambda>name. contains ('':'' @ name) sql) (map fst params)"

definition is_notify :: "string \<Rightarrow> bool" where
  "is_notify sql = (take 7 sql = ''NOTIFY '')"

definition session_execute ::
  "('i, 'p, 'src, 't) AsyncSession \<Rightarrow> string \<Rightarrow> (string \<times> string) list
     \<Rightarrow> db_error + ('i, 'p, 'src, 't) AsyncSession" where
  "session_execute session sql params =
     (if is_notify sql \<and> bound_parameters sql params \<noteq> []
      then Inl (ProgrammingError ''syntax error at or near $1'')
      else Inr (session\<lparr>emitted := emitted session @ [TextClause sql params]\<rparr>))"

text \<open>
  Python's \<^verbatim>\<open>str(event.id)\<close>: the text of the identifier (\<open>str\<close>, fixed by the
  identifier's type), and the text \<^verbatim>\<open>None\<close> for an identifier that is not set.
\<close>

fun py_str :: "('i \<Rightarrow> string) \<Rightarrow> 'i option \<Rightarrow> string" where
  "py_str str None = ''None''"
| "py_str str (Some i) = str i"

text \<open>
  \<^verbatim>\<open>publish_event(session, event_type, payload, source, channel, run_at=None)\<close>.
  Leaving \<^verbatim>\<open>run_at\<close> out of the call is passing \<open>None\<close>. The statement's text is
  the f-string \<^verbatim>\<open>NOTIFY {channel}, :event_id\<close>; the event is read through its
  reference after the flush, as the Python object is. An exception of
  \<^verbatim>\<open>execute\<close> leaves the function (\<open>Inl\<close>, with the session as the flush left
  it); otherwise the event is returned.
\<close>

definition publish_event ::
  "(nat \<Rightarrow> 'i) \<Rightarrow> ('i \<Rightarrow> string) \<Rightarrow> ('i, 'p, 'src, 't) AsyncSession \<Rightarrow> string \<Rightarrow> 'p \<Rightarrow> 'src
     \<Rightarrow> string \<Rightarrow> 't option
     \<Rightarrow> db_error \<times> ('i, 'p, 'src, 't) AsyncSession
        + ('i, 'p, 'src, 't) Event \<times> ('i, 'p, 'src, 't) AsyncSession" where
  "publish_event gen str session event_type' payload' source' channel run_at' =
     (let event = \<lparr>id' = None, type = event_type', payload = payload', source = source',
                    run_at = run_at'\<rparr>;
          (ref, session) = session_add session event;
          session = session_flush gen session
      in case session_execute session (''NOTIFY '' @ channel @ '', :event_id'')
                [(''event_id'', py_str str (id' (objects session ! ref)))] of
           Inl e \<Rightarrow> Inl (e, session)
         | Inr session' \<Rightarrow> Inr (objects session' ! ref, session'))"

section \<open>Configuration (pgebus/config.py)\<close>

text \<open>
  The configuration classes are pydantic models: the constructor validates every keyword
  argument it is given against the type and the bounds of its field, whatever Python
  value that argument is. The values: \<^verbatim>\<open>None\<close>, booleans, integers, floats (a
  finite float is a real number here; infinities and NaN are values of their own),
  strings, and any other object.
\<close>

datatype pyfloat = Finite real | PosInf | NegInf | NaN












text \<open>
  \<^verbatim>\<open>EventSystemConfig\<close>. The bound \<^verbatim>\<open>0.1\<close> is the number one tenth.
\<close>

record EventSystemConfig =
  channel :: string
  n_workers :: int
  queue_maxsize :: int
  max_retries :: int
  poll_interval :: pyfloat
  shutdown_wait_timeout :: pyfloat
  shutdown_wait_for_completion :: bool


text \<open>
  \<^verbatim>\<open>DatabaseConfig\<close> (its field \<^verbatim>\<open>database\<close> is \<open>database'\<close> here, and the
  nested engine options, which nothing below reads, are left out) and \<^verbatim>\<open>Settings\<close>.
\<close>

record DatabaseConfig =
  host :: string
  port :: int
  database' :: string
  user :: string
  password :: string
  application_name :: "string option"
  schema_name :: string

record Settings =
  database :: DatabaseConfig
  event_system :: EventSystemConfig

text \<open>
  \<^verbatim>\<open>Settings()\<close> with nothing supplied and no environment override: both parts are
  built by their default factories, from the defaults of the fields.
\<close>

definition DatabaseConfig_default :: DatabaseConfig where
  "DatabaseConfig_default =
     \<lparr>host = ''localhost'', port = 5432, database' = ''postgres'', user = ''postgres'',
      password = ''postgres'', application_name = None, schema_name = ''pgebus''\<rparr>"

definition Settings_default :: Settings where
  "Settings_default =
     \<lparr>database = DatabaseConfig_default,
      event_system =
        \<lparr>channel = ''events'', n_workers = 5, queue_maxsize = 1000, max_retries = 3,
         poll_interval = Finite 1, shutdown_wait_timeout = Finite 30,
         shutdown_wait_for_completion = True\<rparr>\<rparr>"

section \<open>The system facade (pgebus/system.py)\<close>

text \<open>
  The components the facade wires together (listener, worker pool, queue, repository,
  session manager) are classes of other modules, which are not modelled here. The facade only
  constructs them and awaits their methods, so the model records exactly that: a
  constructed object is an entry of a heap, known by its position, and an awaited method
  is a \<open>call\<close> appended to the trace of the world. Whether a call raises is up to the
  component: \<open>raises h c\<close> says that the call \<open>c\<close>, made after the calls \<open>h\<close>,
  raises.
\<close>

datatype DatabaseSessionManager = DatabaseSessionManager DatabaseConfig

datatype EventRepository = EventRepository

datatype EventQueue = EventQueue EventRepository DatabaseSessionManager int

datatype 'e obj =
    Connection DatabaseConfig
  | EventListener "nat option" EventQueue string
  | EventWorkerPool EventQueue EventRepository "'e EventRouter" DatabaseSessionManager int int pyfloat

text \<open>
  The awaited calls of \<open>start\<close> and \<open>stop\<close>: entering and leaving the
  \<^verbatim>\<open>async with session_manager.session()\<close> block, executing
  \<^verbatim>\<open>CreateSchema(name, if_not_exists)\<close>, the commit,
  \<^verbatim>\<open>create_listener_connection(db)\<close>, and the methods of the listener, the pool and
  the session manager (with the reference of the object they are called on).
\<close>

datatype call =
    SessionEnter
  | Execute_CreateSchema string bool
  | SessionCommit
  | SessionExit
  | CreateListenerConnection DatabaseConfig
  | ListenerStart nat
  | PoolStart nat
  | ListenerStop nat
  | PoolWaitUntilEmpty nat "real option"
  | PoolStop nat
  | SessionManagerClose

datatype error = Raised call | DuplicateSchema string

text \<open>
  The world outside the facade: the schemas of the database, the heap of constructed
  objects and the trace of awaited calls.
\<close>

record 'e world =
  schemas :: "string set"
  heap :: "'e obj list"
  calls :: "call list"

text \<open>
  The attributes of \<^verbatim>\<open>EventSystem\<close>. Those copied from the configuration carry a
  prime, the configuration record having the plain names; \<open>connection\<close> is the
  attribute \<^verbatim>\<open>_connection\<close>. The three optional attributes hold references.
\<close>

record 'e EventSystem =
  router :: "'e EventRouter"
  settings :: Settings
  db :: DatabaseConfig
  channel' :: string
  n_workers' :: int
  queue_maxsize' :: int
  max_retries' :: int
  poll_interval' :: pyfloat
  session_manager :: DatabaseSessionManager
  event_repo :: EventRepository
  event_queue :: EventQueue
  listener :: "nat option"
  worker_pool :: "nat option"
  connection :: "nat option"

definition EventSystem_init :: "'e EventRouter \<Rightarrow> Settings \<Rightarrow> 'e EventSystem" where
  "EventSystem_init router_arg settings_arg =
     (let db_v = database settings_arg;
          queue_maxsize_v = queue_maxsize (event_system settings_arg);
          session_manager_v = DatabaseSessionManager db_v;
          event_repo_v = EventRepository
      in \<lparr>router = router_arg,
          settings = settings_arg,
          db = db_v,
          channel' = channel (event_system settings_arg),
          n_workers' = n_workers (event_system settings_arg),
          queue_maxsize' = queue_maxsize_v,
          max_retries' = max_retries (event_system settings_arg),
          poll_interval' = poll_interval (event_system settings_arg),
          session_manager = session_manager_v,
          event_repo = event_repo_v,
          event_queue = EventQueue event_repo_v session_manager_v queue_maxsize_v,
          listener = None,
          worker_pool = None,
          connection = None\<rparr>)"

text \<open>
  A coroutine of the facade takes the system and the world and ends with an exception or
  without one; either way it leaves a system and a world behind. \<open>seq f g\<close> runs
  \<open>g\<close> after \<open>f\<close> unless \<open>f\<close> raised.
\<close>

type_synonym 'e state = "'e EventSystem \<times> 'e world"
type_synonym 'e step = "'e state \<Rightarrow> error option \<times> 'e state"

definition seq :: "'e step \<Rightarrow> 'e step \<Rightarrow> 'e step" where
  "seq f g s = (case f s of (Some e, s') \<Rightarrow> (Some e, s') | (None, s') \<Rightarrow> g s')"

text \<open>
  Awaiting a component's method puts the call on the trace; \<open>new\<close> constructs an
  object.
\<close>

definition await :: "(call list \<Rightarrow> call \<Rightarrow> bool) \<Rightarrow> call \<Rightarrow> 'e step" where
  "await raises c = (\<lambda>(self, w).
     ((if raises (calls w) c then Some (Raised c) else None),
      (self, w\<lparr>calls := calls w @ [c]\<rparr>)))"

definition new :: "'e obj \<Rightarrow> 'e world \<Rightarrow> nat \<times> 'e world" where
  "new ob w = (length (heap w), w\<lparr>heap := heap w @ [ob]\<rparr>)"

text \<open>
  \<^verbatim>\<open>CREATE SCHEMA [IF NOT EXISTS] name\<close> as PostgreSQL runs it: an existing schema
  is an error without the flag and is left alone with it.
\<close>

definition execute_CreateSchema :: "(call list \<Rightarrow> call \<Rightarrow> bool) \<Rightarrow> string \<Rightarrow> bool \<Rightarrow> 'e step" where
  "execute_CreateSchema raises name if_not_exists = (\<lambda>(self, w).
     (let c = Execute_CreateSchema name if_not_exists;
          w' = w\<lparr>calls := calls w @ [c]\<rparr>
      in if raises (calls w) c then (Some (Raised c), (self, w'))
         else if name \<in> schemas w
         then (if if_not_exists then (None, (self, w'))
               else (Some (DuplicateSchema name), (self, w')))
         else (None, (self, w'\<lparr>schemas := insert name (schemas w)\<rparr>))))"

text \<open>
  The \<^verbatim>\<open>async with\<close> block: the session is left on every path out of the body, and
  an exception of the body goes on after that.
\<close>

definition session_scope :: "(call list \<Rightarrow> call \<Rightarrow> bool) \<Rightarrow> 'e step \<Rightarrow> 'e step" where
  "session_scope raises body s =
     (case await raises SessionEnter s of
        (Some e, s') \<Rightarrow> (Some e, s')
      | (None, s') \<Rightarrow>
          (case body s' of
             (Some e, s'') \<Rightarrow> (Some e, snd (await raises SessionExit s''))
           | (None, s'') \<Rightarrow> await raises SessionExit s''))"

definition create_listener_connection ::
  "(call list \<Rightarrow> call \<Rightarrow> bool) \<Rightarrow> DatabaseConfig \<Rightarrow> 'e world \<Rightarrow> (error + nat) \<times> 'e world" where
  "create_listener_connection raises db_arg w =
     (let c = CreateListenerConnection db_arg;
          w' = w\<lparr>calls := calls w @ [c]\<rparr>
      in if raises (calls w) c then (Inl (Raised c), w')
         else (case new (Connection db_arg) w' of (r, w'') \<Rightarrow> (Inr r, w'')))"

text \<open>
  \<^verbatim>\<open>EventSystem.start()\<close>; the logging calls have no part in the model. The truth
  test on an optional attribute in \<open>stop\<close> and \<open>get_worker_count\<close> is the test
  for \<open>None\<close> (the component classes are taken not to define their own truth value).
\<close>

definition start :: "(call list \<Rightarrow> call \<Rightarrow> bool) \<Rightarrow> 'e step" where
  "start raises =
     seq (session_scope raises
            (seq (\<lambda>(self, w). execute_CreateSchema raises (schema_name (db self)) True (self, w))
                 (await raises SessionCommit)))
    (seq (\<lambda>(self, w).
            (case create_listener_connection raises (db self) w of
               (Inl e, w') \<Rightarrow> (Some e, (self, w'))
             | (Inr c, w') \<Rightarrow> (None, (self\<lparr>connection := Some c\<rparr>, w'))))
    (seq (\<lambda>(self, w).
            (case new (EventListener (connection self) (event_queue self) (channel' self)) w of
               (l, w') \<Rightarrow> await raises (ListenerStart l) (self\<lparr>listener := Some l\<rparr>, w')))
         (\<lambda>(self, w).
            (case new (EventWorkerPool (event_queue self) (event_repo self) (router self)
                         (session_manager self) (n_workers' self) (max_retries' self)
                         (poll_interval' self)) w of
               (p, w') \<Rightarrow> await raises (PoolStart p) (self\<lparr>worker_pool := Some p\<rparr>, w')))))"

definition stop :: "(call list \<Rightarrow> call \<Rightarrow> bool) \<Rightarrow> bool \<Rightarrow> real option \<Rightarrow> 'e step" where
  "stop raises wait_for_completion timeout =
     seq (\<lambda>(self, w).
            (case listener self of
               Some l \<Rightarrow> await raises (ListenerStop l) (self, w)
             | None \<Rightarrow> (None, (self, w))))
    (seq (\<lambda>(self, w).
            (case worker_pool self of
               Some p \<Rightarrow>
                 (if wait_for_completion then await raises (PoolWaitUntilEmpty p timeout) (self, w)
                  else (None, (self, w)))
             | None \<Rightarrow> (None, (self, w))))
    (seq (\<lambda>(self, w).
            (case worker_pool self of
               Some p \<Rightarrow> await raises (PoolStop p) (self, w)
             | None \<Rightarrow> (None, (self, w))))
         (await raises SessionManagerClose)))"

text \<open>
  The two accessors. \<^verbatim>\<open>EventQueue.qsize\<close> and
  \<^verbatim>\<open>EventWorkerPool.get_worker_count\<close> belong to those other modules and are
  parameters; each may raise.
\<close>

definition get_queue_size ::
  "(EventQueue \<Rightarrow> 'e world \<Rightarrow> error + int) \<Rightarrow> 'e EventSystem \<Rightarrow> 'e world \<Rightarrow> error + int" where
  "get_queue_size qsize self w = qsize (event_queue self) w"

definition get_worker_count ::
  "(nat \<Rightarrow> 'e world \<Rightarrow> error + int) \<Rightarrow> 'e EventSystem \<Rightarrow> 'e world \<Rightarrow> error + int" where
  "get_worker_count pool_get_worker_count self w =
     (case worker_pool self of
        Some p \<Rightarrow> pool_get_worker_count p w
      | None \<Rightarrow> Inr 0)"

section \<open>Properties of the child\<close>

lemma new_path_filter:
  "new_path extra rp path = join ''.'' (filter (\<lambda>s. s \<noteq> []) [extra, rp, path])"
  by (simp add: new_path_def)

lemma include_loop_distinct:
  assumes "parent \<noteq> child"
  shows "include_loop st parent child extra i =
     Some (st(parent := (st parent)\<lparr>event_handlers := event_handlers (st parent) @
             map (\<lambda>(path, endpoint). (new_path extra (prefix (st child)) path, endpoint))
               (drop i (event_handlers (st child)))\<rparr>))"
proof (induction "length (event_handlers (st child)) - i" arbitrary: st i)
  case 0
  then show ?case by (subst include_loop.simps) simp
next
  case (Suc n)
  then have i: "i < length (event_handlers (st child))" by simp
  obtain path endpoint where h: "event_handlers (st child) ! i = (path, endpoint)"
    by (cases "event_handlers (st child) ! i")
  let ?st = "st(parent := add_event_route (st parent)
                (new_path extra (prefix (st child)) path) endpoint)"
  have r: "?st child = st child" using assms by simp
  have "n = length (event_handlers (?st child)) - Suc i" using Suc.hyps(2) r by simp
  from Suc.hyps(1) [of ?st "Suc i", OF this]
  have "include_loop ?st parent child extra (Suc i) =
     Some (?st(parent := (?st parent)\<lparr>event_handlers := event_handlers (?st parent) @
             map (\<lambda>(path, endpoint). (new_path extra (prefix (?st child)) path, endpoint))
               (drop (Suc i) (event_handlers (?st child)))\<rparr>))" .
  moreover have "drop i (event_handlers (st child)) =
      (path, endpoint) # drop (Suc i) (event_handlers (st child))"
    using i h by (simp add: Cons_nth_drop_Suc [symmetric])
  ultimately show ?case
    using i h r by (subst include_loop.simps) (simp add: add_event_route_def)
qed

lemma include_loop_returns_only:
  assumes "include_loop st parent child extra i = Some y"
  shows "\<not> (parent = child \<and> i < length (event_handlers (st child)))"
proof (rule include_loop.raw_induct [where
      P = "\<lambda>st parent child extra i y. \<not> (parent = child \<and> i < length (event_handlers (st child)))",
      OF _ assms])
  fix f :: "'a store \<Rightarrow> nat \<Rightarrow> nat \<Rightarrow> string \<Rightarrow> nat \<Rightarrow> 'a store option"
  fix st parent child extra i y
  assume IH: "\<And>st parent child extra i y. f st parent child extra i = Some y \<Longrightarrow>
      \<not> (parent = child \<and> i < length (event_handlers (st child)))"
  assume body: "(if i < length (event_handlers (st child))
      then case event_handlers (st child) ! i of
           (path, endpoint) \<Rightarrow>
             f (st(parent := add_event_route (st parent)
                     (new_path extra (prefix (st child)) path) endpoint))
              parent child extra (Suc i)
      else Some st) = Some y"
  show "\<not> (parent = child \<and> i < length (event_handlers (st child)))"
  proof
    assume a: "parent = child \<and> i < length (event_handlers (st child))"
    obtain path endpoint where h: "event_handlers (st child) ! i = (path, endpoint)"
      by (cases "event_handlers (st child) ! i")
    let ?st = "st(parent := add_event_route (st parent)
                  (new_path extra (prefix (st child)) path) endpoint)"
    from body a h have "f ?st parent child extra (Suc i) = Some y" by simp
    from IH [OF this] a show False by (simp add: add_event_route_def)
  qed
qed

lemma include_loop_self:
  "i < length (event_handlers (st r)) \<Longrightarrow> include_loop st r r extra i = None"
  using include_loop_returns_only [of st r r extra i] by (cases "include_loop st r r extra i") auto

lemma include_router_distinct:
  "parent \<noteq> child \<Longrightarrow>
     include_router st parent child extra =
       Some (st(parent := (st parent)\<lparr>event_handlers := event_handlers (st parent) @
               map (\<lambda>(path, endpoint).
                      (join ''.'' (filter (\<lambda>s. s \<noteq> []) [extra, prefix (st child), path]),
                       endpoint))
                 (event_handlers (st child))\<rparr>))"
  by (simp add: include_router_def include_loop_distinct new_path_filter)

lemma find_Some_mem: "find P xs = Some x \<Longrightarrow> x \<in> set xs \<and> P x"
  by (induction xs) (auto split: if_splits)

lemma handle_loop_cases:
  "handle_loop call hs session event =
     (case find (\<lambda>(path, endpoint). path = event_type event) hs of
        None \<Rightarrow> ([], Inr (False, session))
      | Some (path, endpoint) \<Rightarrow>
          ([endpoint], (case call endpoint session event of
                          Inl x \<Rightarrow> Inl x
                        | Inr session' \<Rightarrow> Inr (True, session'))))"
  by (induction hs) auto

lemma handle_cases:
  "handle call r session event =
     (case find (\<lambda>(path, endpoint). path = event_type event) (event_handlers r) of
        None \<Rightarrow> ([], Inr (False, session))
      | Some (path, endpoint) \<Rightarrow>
          ([endpoint], (case call endpoint session event of
                          Inl x \<Rightarrow> Inl x
                        | Inr session' \<Rightarrow> Inr (True, session'))))"
  by (simp add: handle_def handle_loop_cases)

text \<open>
  Claim C2. For every session and event, \<open>handle\<close> returns true if and only if some
  registered route's path equals the event's type; when no registered path equals the
  type it returns false, invokes no endpoint and leaves the session as it was. The
  endpoint is awaited before \<open>handle\<close> returns, so "returns true" presumes that the
  endpoint of a matching route returns (its exception would leave \<open>handle\<close> instead of
  a boolean); the last conjunct needs no such presumption: whatever boolean \<open>handle\<close>
  returns is the truth value of "some route's path equals the type".
\<close>

theorem handle_true_iff_route:
  "((\<forall>(path, endpoint) \<in> set (event_handlers r).
        path = event_type event \<longrightarrow> \<not> isl (call endpoint session event)) \<longrightarrow>
      ((\<exists>session'. snd (handle call r session event) = Inr (True, session')) \<longleftrightarrow>
       (\<exists>(path, endpoint) \<in> set (event_handlers r). path = event_type event)))
   \<and> ((\<forall>(path, endpoint) \<in> set (event_handlers r). path \<noteq> event_type event) \<longrightarrow>
        handle call r session event = ([], Inr (False, session)))
   \<and> (\<forall>b session'. snd (handle call r session event) = Inr (b, session') \<longrightarrow>
        b = (\<exists>(path, endpoint) \<in> set (event_handlers r). path = event_type event))"
proof (cases "find (\<lambda>(path, endpoint). path = event_type event) (event_handlers r)")
  case None
  then have no: "\<forall>(path, endpoint) \<in> set (event_handlers r). path \<noteq> event_type event"
    by (auto simp: find_None_iff)
  from None have "handle call r session event = ([], Inr (False, session))"
    by (simp add: handle_cases)
  with no show ?thesis by auto
next
  case (Some a)
  obtain p endpoint where a: "a = (p, endpoint)" by (cases a)
  from find_Some_mem [OF Some] a
  have mem: "(p, endpoint) \<in> set (event_handlers r)" and p: "p = event_type event"
    by auto
  from Some a have h: "handle call r session event =
       ([endpoint], (case call endpoint session event of
                       Inl x \<Rightarrow> Inl x | Inr session' \<Rightarrow> Inr (True, session')))"
    by (simp add: handle_cases)
  show ?thesis
  proof (cases "call endpoint session event")
    case (Inl x)
    with h have "snd (handle call r session event) = Inl x" by simp
    moreover from Inl have "isl (call endpoint session event)" by simp
    ultimately show ?thesis using mem p by auto
  next
    case (Inr session')
    with h have "snd (handle call r session event) = Inr (True, session')" by simp
    then show ?thesis using mem p by auto
  qed
qed

theorem handle_true_iff_route_witness:
  "snd (handle (\<lambda>endpoint (session::nat) event. (Inr (session + endpoint) :: unit + nat))
        \<lparr>prefix = ''p'', event_handlers = [(''a.b'', 1::nat), (''c'', 2)]\<rparr> 10
        \<lparr>event_type = ''c'', event_payload = ()\<rparr>) = Inr (True, 12)
   \<and> handle (\<lambda>endpoint (session::nat) event. (Inr (session + endpoint) :: unit + nat))
        \<lparr>prefix = ''p'', event_handlers = [(''a.b'', 1::nat), (''c'', 2)]\<rparr> 10
        \<lparr>event_type = ''p.c'', event_payload = ()\<rparr> = ([], Inr (False, 10))"
  using handle_true_iff_route [of "\<lparr>prefix = ''p'', event_handlers = [(''a.b'', 1::nat), (''c'', 2)]\<rparr>"
      "\<lparr>event_type = ''c'', event_payload = ()\<rparr>"
      "\<lambda>endpoint (session::nat) event. (Inr (session + endpoint) :: unit + nat)" 10]
    handle_true_iff_route [of "\<lparr>prefix = ''p'', event_handlers = [(''a.b'', 1::nat), (''c'', 2)]\<rparr>"
      "\<lparr>event_type = ''p.c'', event_payload = ()\<rparr>"
      "\<lambda>endpoint (session::nat) event. (Inr (session + endpoint) :: unit + nat)" 10]
  by (simp add: handle_def)

text \<open>
  Claim C3, as stated, at a concrete input: a router with one route is included into
  itself. The loop reads the list it appends to, so the call never returns (the result
  \<open>None\<close>), and no finite list of routes is ever the outcome.
\<close>

theorem include_router_self_counterexample:
  "include_router (\<lambda>r. \<lparr>prefix = ''api'', event_handlers = [(''ping'', 0::nat)]\<rparr>) 0 0 ''v1'' = None"
  by (simp add: include_router_def include_loop_self)

text \<open>
  Claim C3, amended. For every parent router, every child router that is another object
  than the parent, and every extra prefix, \<open>include_router\<close> returns and appends to
  the parent's routes, in the child's registration order, one route for each
  \<open>(path, endpoint)\<close> of the child: its path is the non-empty strings among the extra
  prefix, the child's own prefix and the original path, joined by dots, and its endpoint
  is the same. The parent's earlier routes and prefix, the child and every other router
  stay as they were. When the three strings are all non-empty the new path reads
  \<open>extra.child.leaf\<close>. (A router without routes may also be included into itself:
  nothing is appended.)
\<close>

theorem include_router_routes:
  "(parent \<noteq> child \<longrightarrow>
      include_router st parent child extra =
        Some (st(parent := (st parent)\<lparr>event_handlers := event_handlers (st parent) @
                map (\<lambda>(path, endpoint).
                       (join ''.'' (filter (\<lambda>s. s \<noteq> []) [extra, prefix (st child), path]),
                        endpoint))
                  (event_handlers (st child))\<rparr>)))
   \<and> (event_handlers (st child) = [] \<longrightarrow> include_router st child child extra = Some st)
   \<and> (\<forall>path. extra \<noteq> [] \<and> prefix (st child) \<noteq> [] \<and> path \<noteq> [] \<longrightarrow>
        join ''.'' (filter (\<lambda>s. s \<noteq> []) [extra, prefix (st child), path]) =
          extra @ ''.'' @ prefix (st child) @ ''.'' @ path)"
proof (intro conjI impI allI)
  assume "parent \<noteq> child"
  then show "include_router st parent child extra =
        Some (st(parent := (st parent)\<lparr>event_handlers := event_handlers (st parent) @
                map (\<lambda>(path, endpoint).
                       (join ''.'' (filter (\<lambda>s. s \<noteq> []) [extra, prefix (st child), path]),
                        endpoint))
                  (event_handlers (st child))\<rparr>))"
    by (rule include_router_distinct)
next
  assume "event_handlers (st child) = []"
  then show "include_router st child child extra = Some st"
    unfolding include_router_def by (subst include_loop.simps) simp
next
  fix path :: string
  assume "extra \<noteq> [] \<and> prefix (st child) \<noteq> [] \<and> path \<noteq> []"
  then show "join ''.'' (filter (\<lambda>s. s \<noteq> []) [extra, prefix (st child), path]) =
          extra @ ''.'' @ prefix (st child) @ ''.'' @ path"
    by simp
qed

theorem include_router_routes_witness:
  "map_option (\<lambda>st'. (event_handlers (st' 0), st' (Suc 0)))
     (include_router
        ((\<lambda>r. \<lparr>prefix = ''api'', event_handlers = [(''ping'', 0::nat)]\<rparr>)
           (Suc 0 := \<lparr>prefix = ''child'', event_handlers = [(''leaf'', 1), ([], 2)]\<rparr>))
        0 (Suc 0) ''parent'') =
     Some ([(''ping'', 0), (''parent.child.leaf'', 1), (''parent.child'', 2)],
           \<lparr>prefix = ''child'', event_handlers = [(''leaf'', 1), ([], 2)]\<rparr>)
   \<and> join ''.'' (filter (\<lambda>s. s \<noteq> []) [''parent'', ''child'', ''leaf'']) = ''parent.child.leaf''"
  using include_router_routes [of 0 "Suc 0"
      "(\<lambda>r. \<lparr>prefix = ''api'', event_handlers = [(''ping'', 0::nat)]\<rparr>)
           (Suc 0 := \<lparr>prefix = ''child'', event_handlers = [(''leaf'', 1), ([], 2)]\<rparr>)"
      "''parent''"]
  by simp



text \<open>
  Claim C9. For every event, \<open>handle\<close> invokes at most one endpoint: that of the
  earliest registered route whose path equals the event's type. The whole result of
  \<open>handle\<close> is fixed by that one call: the endpoint is called once, on the session
  \<open>handle\<close> was given, and what \<open>handle\<close> returns (the session that call left, or
  the exception it raised) is the outcome of that call alone, so no later route with the
  same path has been run; with no such route nothing is called and the session is
  untouched. The earliest route is the first hit of a search in registration order, that
  is, the route at the index \<open>i\<close> with no matching route before it.
\<close>

theorem handle_first_match:
  "handle call r session event =
     (case find (\<lambda>(path, endpoint). path = event_type event) (event_handlers r) of
        None \<Rightarrow> ([], Inr (False, session))
      | Some (path, endpoint) \<Rightarrow>
          ([endpoint], (case call endpoint session event of
                          Inl x \<Rightarrow> Inl x
                        | Inr session' \<Rightarrow> Inr (True, session'))))
   \<and> length (fst (handle call r session event)) \<le> 1
   \<and> (\<forall>i < length (event_handlers r).
        fst (event_handlers r ! i) = event_type event \<and>
        (\<forall>j < i. fst (event_handlers r ! j) \<noteq> event_type event) \<longrightarrow>
        handle call r session event =
          ([snd (event_handlers r ! i)],
           (case call (snd (event_handlers r ! i)) session event of
              Inl x \<Rightarrow> Inl x
            | Inr session' \<Rightarrow> Inr (True, session'))))"
proof (intro conjI allI impI)
  let ?P = "\<lambda>(path, endpoint). path = event_type event"
  show whole: "handle call r session event =
     (case find ?P (event_handlers r) of
        None \<Rightarrow> ([], Inr (False, session))
      | Some (path, endpoint) \<Rightarrow>
          ([endpoint], (case call endpoint session event of
                          Inl x \<Rightarrow> Inl x
                        | Inr session' \<Rightarrow> Inr (True, session'))))"
    by (rule handle_cases)
  show "length (fst (handle call r session event)) \<le> 1"
    unfolding whole by (simp split: option.split prod.split)
  fix i
  assume i: "i < length (event_handlers r)"
    and m: "fst (event_handlers r ! i) = event_type event \<and>
        (\<forall>j < i. fst (event_handlers r ! j) \<noteq> event_type event)"
  have "find ?P (event_handlers r) = Some (event_handlers r ! i)"
    unfolding find_Some_iff using i m by (auto simp: case_prod_beta)
  then show "handle call r session event =
          ([snd (event_handlers r ! i)],
           (case call (snd (event_handlers r ! i)) session event of
              Inl x \<Rightarrow> Inl x
            | Inr session' \<Rightarrow> Inr (True, session')))"
    unfolding whole by (simp split: prod.split)
qed

theorem handle_first_match_witness:
  "handle (\<lambda>endpoint (session::nat list) event. (Inr (session @ [endpoint]) :: unit + nat list))
      \<lparr>prefix = ''p'', event_handlers = [(''a'', 1::nat), (''b'', 2), (''b'', 3)]\<rparr> [0]
      \<lparr>event_type = ''b'', event_payload = ()\<rparr> = ([2], Inr (True, [0, 2]))
   \<and> handle (\<lambda>endpoint (session::nat list) event.
              if endpoint = 2 then Inl () else (Inr (session @ [endpoint]) :: unit + nat list))
      \<lparr>prefix = ''p'', event_handlers = [(''a'', 1::nat), (''b'', 2), (''b'', 3)]\<rparr> [0]
      \<lparr>event_type = ''b'', event_payload = ()\<rparr> = ([2], Inl ())"
  using handle_first_match [of
      "\<lambda>endpoint (session::nat list) event. (Inr (session @ [endpoint]) :: unit + nat list)"
      "\<lparr>prefix = ''p'', event_handlers = [(''a'', 1::nat), (''b'', 2), (''b'', 3)]\<rparr>" "[0]"
      "\<lparr>event_type = ''b'', event_payload = ()\<rparr>"]
    handle_first_match [of
      "\<lambda>endpoint (session::nat list) event.
              if endpoint = 2 then Inl () else (Inr (session @ [endpoint]) :: unit + nat list)"
      "\<lparr>prefix = ''p'', event_handlers = [(''a'', 1::nat), (''b'', 2), (''b'', 3)]\<rparr>" "[0]"
      "\<lparr>event_type = ''b'', event_payload = ()\<rparr>"]
  by simp

section \<open>Properties of publish\_event\<close>

lemma flush_objects_snoc:
  "id' e = None \<Longrightarrow> flush_objects gen n es = (es', stmts, n') \<Longrightarrow>
     flush_objects gen n (es @ [e]) =
       (es' @ [e\<lparr>id' := Some (gen n')\<rparr>], stmts @ [INSERT (e\<lparr>id' := Some (gen n')\<rparr>)], Suc n')"
  by (induction es arbitrary: n es' stmts n')
     (auto simp: Let_def split: option.splits prod.splits)

lemma contains_append: "contains pat (xs @ pat @ ys)"
proof (induction xs)
  case Nil
  show ?case
  proof (cases "pat @ ys")
    case Nil
    then show ?thesis by simp
  next
    case (Cons a list)
    have "take (length pat) (pat @ ys) = pat" by simp
    with Cons show ?thesis by simp
  qed
next
  case (Cons x xs)
  then show ?case by simp
qed

lemma notify_text_rejected:
  "is_notify (''NOTIFY '' @ ch @ '', :event_id'')
   \<and> bound_parameters (''NOTIFY '' @ ch @ '', :event_id'') [(''event_id'', v)] = [''event_id'']"
proof -
  have "contains '':event_id'' ((''NOTIFY '' @ ch @ '', '') @ '':event_id'' @ [])"
    by (rule contains_append)
  then show ?thesis by (simp add: is_notify_def bound_parameters_def)
qed

lemma execute_notify_rejected:
  "session_execute session (''NOTIFY '' @ ch @ '', :event_id'') [(''event_id'', v)] =
     Inl (ProgrammingError ''syntax error at or near $1'')"
  using notify_text_rejected [of ch v] by (simp add: session_execute_def)

lemma notify_without_parameter:
  "session_execute session ''NOTIFY events'' [] =
     Inr (session\<lparr>emitted := emitted session @ [TextClause ''NOTIFY events'' []]\<rparr>)"
  by (simp add: session_execute_def bound_parameters_def)

text \<open>
  Claim C1 says that \<open>publish_event\<close> inserts the row, issues the notification with
  the text of the row's identifier as its payload, and returns the row. What the function
  does, for every session, event type, payload, source, channel and \<open>run_at\<close>: it adds
  the row and flushes, so the row is inserted (after the objects that were still waiting
  in the session) and gets its identifier; then the statement
  \<^verbatim>\<open>NOTIFY <channel>, :event_id\<close> with the bound parameter \<^verbatim>\<open>event_id\<close> is
  refused by the database as a syntax error. The function raises that error: no
  notification is issued and the row is not returned.
\<close>

theorem publish_event_raises_at_notify:
  "\<exists>objects' earlier n.
     flush_objects gen (inserted session) (objects session) = (objects', earlier, n)
   \<and> publish_event gen str session t p src ch r =
       Inl (ProgrammingError ''syntax error at or near $1'',
            \<lparr>objects = objects' @
               [\<lparr>id' = Some (gen n), type = t, payload = p, source = src, run_at = r\<rparr>],
             emitted = emitted session @ earlier @
               [INSERT \<lparr>id' = Some (gen n), type = t, payload = p, source = src, run_at = r\<rparr>],
             inserted = Suc n\<rparr>)"
proof -
  obtain objects' earlier n where
    f: "flush_objects gen (inserted session) (objects session) = (objects', earlier, n)"
    by (cases "flush_objects gen (inserted session) (objects session)") auto
  let ?e = "\<lparr>id' = None, type = t, payload = p, source = src, run_at = r\<rparr>"
  have snoc: "flush_objects gen (inserted session) (objects session @ [?e]) =
      (objects' @ [?e\<lparr>id' := Some (gen n)\<rparr>], earlier @ [INSERT (?e\<lparr>id' := Some (gen n)\<rparr>)], Suc n)"
    using f by (intro flush_objects_snoc) simp_all
  have "publish_event gen str session t p src ch r =
      Inl (ProgrammingError ''syntax error at or near $1'',
           session_flush gen (session\<lparr>objects := objects session @ [?e]\<rparr>))"
    by (simp only: publish_event_def Let_def session_add_def prod.case
        execute_notify_rejected sum.case)
  then show ?thesis
    using f snoc by (cases session) (simp add: session_flush_def)
qed

theorem publish_event_raises_at_notify_witness:
  "publish_event (\<lambda>n. int n + 1) (\<lambda>i. if i = 4 then ''4'' else ''?'')
      \<lparr>objects = [], emitted = [], inserted = 3\<rparr>
      ''user.created'' ''{user_id: 9}'' ''INTERNAL'' ''events'' (None :: nat option) =
     Inl (ProgrammingError ''syntax error at or near $1'',
      \<lparr>objects = [\<lparr>id' = Some 4, type = ''user.created'', payload = ''{user_id: 9}'',
                   source = ''INTERNAL'', run_at = None\<rparr>],
        emitted = [INSERT \<lparr>id' = Some 4, type = ''user.created'', payload = ''{user_id: 9}'',
                     source = ''INTERNAL'', run_at = None\<rparr>],
        inserted = 4\<rparr>)"
  using publish_event_raises_at_notify [of "\<lambda>n. int n + 1" "\<lparr>objects = [], emitted = [], inserted = 3\<rparr>"
      "\<lambda>i. if i = 4 then ''4'' else ''?''" "''user.created''" "''{user_id: 9}''" "''INTERNAL''"
      "''events''" "None :: nat option"]
  by simp

section \<open>Properties of the configuration\<close>








section \<open>Properties of the system facade\<close>

lemmas facade_defs =
  start_def stop_def seq_def session_scope_def await_def execute_CreateSchema_def
  create_listener_connection_def new_def Let_def

lemma start_no_raise:
  assumes "\<And>h c. \<not> raises h c"
  shows "start raises (self, w) =
    (None,
     (self\<lparr>connection := Some (length (heap w)), listener := Some (Suc (length (heap w))),
           worker_pool := Some (Suc (Suc (length (heap w))))\<rparr>,
      w\<lparr>schemas := insert (schema_name (db self)) (schemas w),
        heap := heap w @ [Connection (db self),
          EventListener (Some (length (heap w))) (event_queue self) (channel' self),
          EventWorkerPool (event_queue self) (event_repo self) (router self)
            (session_manager self) (n_workers' self) (max_retries' self) (poll_interval' self)],
        calls := calls w @
          [SessionEnter, Execute_CreateSchema (schema_name (db self)) True, SessionCommit,
           SessionExit, CreateListenerConnection (db self),
           ListenerStart (Suc (length (heap w))), PoolStart (Suc (Suc (length (heap w))))]\<rparr>))"
  using assms by (simp add: facade_defs insert_absorb)


lemma start_error:
  assumes "fst (start raises (self, w)) = Some e"
  shows "\<exists>h c. raises h c \<and> e = Raised c"
  using assms by (auto simp: facade_defs split: if_splits)



lemma stop_self: "fst (snd (stop raises wait timeout (self, w))) = self"
  by (simp add: facade_defs split: option.splits)

lemma stop_world:
  "schemas (snd (snd (stop raises wait timeout (self, w)))) = schemas w
   \<and> heap (snd (snd (stop raises wait timeout (self, w)))) = heap w"
  by (simp add: facade_defs split: option.splits)


lemma stop_no_raise:
  assumes "listener self = Some l" "worker_pool self = Some p"
    and "\<And>h c. \<not> raises h c"
  shows "stop raises wait timeout (self, w) =
    (None, (self, w\<lparr>calls := calls w @ ListenerStop l #
       (if wait then [PoolWaitUntilEmpty p timeout] else []) @ [PoolStop p, SessionManagerClose]\<rparr>))"
  using assms by (simp add: facade_defs)



lemma create_schema_flag:
  "name \<in> schemas w \<Longrightarrow> \<not> raises (calls w) (Execute_CreateSchema name flag) \<Longrightarrow>
     fst (execute_CreateSchema raises name flag (self, w)) =
       (if flag then None else Some (DuplicateSchema name))"
  by (simp add: execute_CreateSchema_def Let_def)





text \<open>
  Claim C4, as stated, at a concrete input: a system built from the default settings is
  started in a world where every component call succeeds. The start returns, and the
  second start returns as well: no error is raised.
\<close>

theorem second_start_counterexample:
  "fst (start (\<lambda>h c. False)
          (EventSystem_init (EventRouter_init ''root'' :: nat EventRouter) Settings_default,
           \<lparr>schemas = {}, heap = [], calls = []\<rparr>)) = None
   \<and> fst (start (\<lambda>h c. False)
          (snd (start (\<lambda>h c. False)
             (EventSystem_init (EventRouter_init ''root'' :: nat EventRouter) Settings_default,
              \<lparr>schemas = {}, heap = [], calls = []\<rparr>)))) = None"
  by (simp add: start_no_raise)

text \<open>
  Claim C4, amended. \<open>start\<close> has no guard against a second call: whatever the state
  of the system, it raises only an exception that one of its component calls raises. When
  none does, a second start after a first one returns like the first, having run the whole
  sequence again with a new connection, a new listener and a new pool, whose references
  replace the first ones. \<open>stop\<close> changes no attribute of the system, no schema and
  no object; a second stop on a started system makes the same calls on the same listener
  and pool again (so it is a no-op exactly as far as those component calls are).
\<close>

theorem second_start_second_stop:
  "(\<forall>e. fst (start raises (self, w)) = Some e \<longrightarrow> (\<exists>h c. raises h c \<and> e = Raised c))
   \<and> ((\<forall>h c. \<not> raises h c) \<longrightarrow>
        fst (start raises (snd (start raises (self, w)))) = None
      \<and> connection (fst (snd (start raises (self, w)))) = Some (length (heap w))
      \<and> listener (fst (snd (start raises (self, w)))) = Some (length (heap w) + 1)
      \<and> worker_pool (fst (snd (start raises (self, w)))) = Some (length (heap w) + 2)
      \<and> connection (fst (snd (start raises (snd (start raises (self, w)))))) =
          Some (length (heap w) + 3)
      \<and> listener (fst (snd (start raises (snd (start raises (self, w)))))) =
          Some (length (heap w) + 4)
      \<and> worker_pool (fst (snd (start raises (snd (start raises (self, w)))))) =
          Some (length (heap w) + 5)
      \<and> calls (snd (snd (start raises (snd (start raises (self, w)))))) =
          calls w @
          [SessionEnter, Execute_CreateSchema (schema_name (db self)) True, SessionCommit,
           SessionExit, CreateListenerConnection (db self),
           ListenerStart (length (heap w) + 1), PoolStart (length (heap w) + 2),
           SessionEnter, Execute_CreateSchema (schema_name (db self)) True, SessionCommit,
           SessionExit, CreateListenerConnection (db self),
           ListenerStart (length (heap w) + 4), PoolStart (length (heap w) + 5)])
   \<and> fst (snd (stop raises wait timeout (self, w))) = self
   \<and> schemas (snd (snd (stop raises wait timeout (self, w)))) = schemas w
   \<and> heap (snd (snd (stop raises wait timeout (self, w)))) = heap w
   \<and> (listener self = Some l \<and> worker_pool self = Some p \<and> (\<forall>h c. \<not> raises h c) \<longrightarrow>
        calls (snd (snd (stop raises wait2 timeout2 (snd (stop raises wait timeout (self, w)))))) =
          calls w @
          ListenerStop l # (if wait then [PoolWaitUntilEmpty p timeout] else []) @
            [PoolStop p, SessionManagerClose] @
          ListenerStop l # (if wait2 then [PoolWaitUntilEmpty p timeout2] else []) @
            [PoolStop p, SessionManagerClose])"
proof (intro conjI allI impI)
  fix e assume "fst (start raises (self, w)) = Some e"
  then show "\<exists>h c. raises h c \<and> e = Raised c" by (rule start_error)
next
  assume n: "\<forall>h c. \<not> raises h c"
  then have n': "\<And>h c. \<not> raises h c" by simp
  note s = start_no_raise [of raises, OF n']
  show "fst (start raises (snd (start raises (self, w)))) = None" by (simp add: s)
  show "connection (fst (snd (start raises (self, w)))) = Some (length (heap w))"
    by (simp add: s)
  show "listener (fst (snd (start raises (self, w)))) = Some (length (heap w) + 1)"
    by (simp add: s)
  show "worker_pool (fst (snd (start raises (self, w)))) = Some (length (heap w) + 2)"
    by (simp add: s)
  show "connection (fst (snd (start raises (snd (start raises (self, w)))))) =
          Some (length (heap w) + 3)"
    by (simp add: s)
  show "listener (fst (snd (start raises (snd (start raises (self, w)))))) =
          Some (length (heap w) + 4)"
    by (simp add: s)
  show "worker_pool (fst (snd (start raises (snd (start raises (self, w)))))) =
          Some (length (heap w) + 5)"
    by (simp add: s)
  show "calls (snd (snd (start raises (snd (start raises (self, w)))))) =
          calls w @
          [SessionEnter, Execute_CreateSchema (schema_name (db self)) True, SessionCommit,
           SessionExit, CreateListenerConnection (db self),
           ListenerStart (length (heap w) + 1), PoolStart (length (heap w) + 2),
           SessionEnter, Execute_CreateSchema (schema_name (db self)) True, SessionCommit,
           SessionExit, CreateListenerConnection (db self),
           ListenerStart (length (heap w) + 4), PoolStart (length (heap w) + 5)]"
    by (simp add: s)
next
  show "fst (snd (stop raises wait timeout (self, w))) = self" by (rule stop_self)
  show "schemas (snd (snd (stop raises wait timeout (self, w)))) = schemas w"
    by (simp add: stop_world)
  show "heap (snd (snd (stop raises wait timeout (self, w)))) = heap w"
    by (simp add: stop_world)
next
  assume a: "listener self = Some l \<and> worker_pool self = Some p \<and> (\<forall>h c. \<not> raises h c)"
  then have l: "listener self = Some l" and p: "worker_pool self = Some p"
    and n: "\<And>h c. \<not> raises h c" by simp_all
  note s = stop_no_raise [of self l p raises, OF l p n]
  show "calls (snd (snd (stop raises wait2 timeout2 (snd (stop raises wait timeout (self, w)))))) =
          calls w @
          ListenerStop l # (if wait then [PoolWaitUntilEmpty p timeout] else []) @
            [PoolStop p, SessionManagerClose] @
          ListenerStop l # (if wait2 then [PoolWaitUntilEmpty p timeout2] else []) @
            [PoolStop p, SessionManagerClose]"
    by (simp add: s)
qed

theorem second_start_second_stop_witness:
  "calls (snd (snd (start (\<lambda>h c. False) (snd (start (\<lambda>h c. False)
      (EventSystem_init (EventRouter_init ''root'' :: nat EventRouter) Settings_default,
       \<lparr>schemas = {}, heap = [], calls = []\<rparr>)))))) =
     [SessionEnter, Execute_CreateSchema ''pgebus'' True, SessionCommit, SessionExit,
      CreateListenerConnection DatabaseConfig_default, ListenerStart 1, PoolStart 2,
      SessionEnter, Execute_CreateSchema ''pgebus'' True, SessionCommit, SessionExit,
      CreateListenerConnection DatabaseConfig_default, ListenerStart 4, PoolStart 5]
   \<and> calls (snd (snd (stop (\<lambda>h c. False) True None (snd (stop (\<lambda>h c. False) True None
      (snd (start (\<lambda>h c. False)
         (EventSystem_init (EventRouter_init ''root'' :: nat EventRouter) Settings_default,
          \<lparr>schemas = {}, heap = [], calls = []\<rparr>)))))))) =
     [SessionEnter, Execute_CreateSchema ''pgebus'' True, SessionCommit, SessionExit,
      CreateListenerConnection DatabaseConfig_default, ListenerStart 1, PoolStart 2,
      ListenerStop 1, PoolWaitUntilEmpty 2 None, PoolStop 2, SessionManagerClose,
      ListenerStop 1, PoolWaitUntilEmpty 2 None, PoolStop 2, SessionManagerClose]"
  using second_start_second_stop [of "\<lambda>h c. False"
      "EventSystem_init (EventRouter_init ''root'' :: nat EventRouter) Settings_default"
      "\<lparr>schemas = {}, heap = [], calls = []\<rparr>" True None 1 2 True None]
    second_start_second_stop [of "\<lambda>h c. False"
      "fst (snd (start (\<lambda>h c. False)
         (EventSystem_init (EventRouter_init ''root'' :: nat EventRouter) Settings_default,
          \<lparr>schemas = {}, heap = [], calls = []\<rparr>)))"
      "snd (snd (start (\<lambda>h c. False)
         (EventSystem_init (EventRouter_init ''root'' :: nat EventRouter) Settings_default,
          \<lparr>schemas = {}, heap = [], calls = []\<rparr>)))" True None 1 2 True None]
  by (simp add: start_no_raise EventSystem_init_def Settings_default_def
      DatabaseConfig_default_def Let_def)

text \<open>
  Claim C10. On a system that has been constructed and not started the pool is not set,
  and \<open>get_worker_count\<close> returns 0 without calling the pool (also when the pool's own
  method would raise); it returns 0 whenever the pool is not set. The constructor has
  built the queue, so \<open>get_queue_size\<close> right after construction is the size of that
  queue, as its \<open>qsize\<close> gives it.
\<close>

theorem accessors_before_start:
  "get_worker_count pool_get_worker_count (EventSystem_init r st) w = Inr 0
   \<and> (worker_pool self = None \<longrightarrow> get_worker_count pool_get_worker_count self w = Inr 0)
   \<and> worker_pool (EventSystem_init r st) = None
   \<and> listener (EventSystem_init r st) = None
   \<and> event_queue (EventSystem_init r st) =
        EventQueue EventRepository (DatabaseSessionManager (database st))
          (queue_maxsize (event_system st))
   \<and> get_queue_size qsize (EventSystem_init r st) w =
        qsize (EventQueue EventRepository (DatabaseSessionManager (database st))
                 (queue_maxsize (event_system st))) w"
  by (simp add: get_worker_count_def get_queue_size_def EventSystem_init_def Let_def)

theorem accessors_before_start_witness:
  "get_worker_count (\<lambda>p w. Inl (Raised (PoolStart p)))
      (EventSystem_init (EventRouter_init ''root'' :: nat EventRouter) Settings_default)
      \<lparr>schemas = {}, heap = [], calls = []\<rparr> = Inr 0
   \<and> get_queue_size (\<lambda>q w. case q of EventQueue repo manager maxsize \<Rightarrow> Inr maxsize)
      (EventSystem_init (EventRouter_init ''root'' :: nat EventRouter) Settings_default)
      \<lparr>schemas = {}, heap = [], calls = []\<rparr> = Inr 1000"
  using accessors_before_start [of "\<lambda>p w. Inl (Raised (PoolStart p))"
      "EventRouter_init ''root'' :: nat EventRouter" Settings_default
      "\<lparr>schemas = {}, heap = [], calls = []\<rparr>"
      "EventSystem_init (EventRouter_init ''root'' :: nat EventRouter) Settings_default"
      "\<lambda>q w. case q of EventQueue repo manager maxsize \<Rightarrow> Inr maxsize"]
  by (simp add: Settings_default_def)

end
